theory Spec2Isabelle
  imports Main "HOL-Library.AList" "HOL-Library.Sublist" "HOL-Library.Word"
begin

section \<open>The Digital Ocean HTTP function adapter\<close>

text \<open>
  A shallow embedding of \<^verbatim>\<open>src/adapters/digital-ocean/http-function.adapter.ts\<close>.
  TypeScript types are erased at run time, so the methods that read an event are modelled
  on untyped JavaScript values, and every place where the running code would throw is a
  branch of the model.
\<close>

subsection \<open>JavaScript values\<close>

text \<open>
  The values an event can be made of: what a JSON document holds, plus \<open>undefined\<close> and
  \<open>NaN\<close>. A string is a list of UTF-16 code units; the model covers the code units
  U+0000 to U+00FF, one \<open>char\<close> each, so that \<open>length\<close> is the JavaScript \<open>length\<close>.
  Numbers are the integers and \<open>NaN\<close> (only their truthiness is ever inspected).
  An object is the list of its own properties in insertion order; its properties are
  plain data (no accessors, no proxies), and the values of one event share no object.
\<close>

datatype jsval =
    JUndefined
  | JNull
  | JBool bool
  | JNum int
  | JNaN
  | JStr string
  | JArr "jsval list"
  | JObj "(string \<times> jsval) list"

text \<open>
  What the running code can do besides returning: throw a \<open>TypeError\<close>, or leave the
  fragment of the run-time library that this theory models (\<open>OutsideModel\<close>: the
  outcome is then not determined here, and no theorem below speaks about it).
\<close>

datatype js_error = TypeError | OutsideModel

definition andThen :: "js_error + 'a \<Rightarrow> ('a \<Rightarrow> js_error + 'b) \<Rightarrow> js_error + 'b" where
  "andThen r f = (case r of Inl e \<Rightarrow> Inl e | Inr v \<Rightarrow> f v)"

text \<open>\<open>!!v\<close>: the falsy values are \<open>undefined\<close>, \<open>null\<close>, \<open>false\<close>, \<open>0\<close>, \<open>NaN\<close> and \<open>""\<close>.\<close>

fun truthy :: "jsval \<Rightarrow> bool" where
  "truthy JUndefined = False"
| "truthy JNull = False"
| "truthy (JBool b) = b"
| "truthy (JNum n) = (n \<noteq> 0)"
| "truthy JNaN = False"
| "truthy (JStr s) = (s \<noteq> [])"
| "truthy (JArr xs) = True"
| "truthy (JObj fs) = True"

text \<open>
  \<open>v.k\<close> and \<open>v[k]\<close>: reading a property of \<open>undefined\<close> or \<open>null\<close> throws a TypeError.
  A missing property reads as \<open>undefined\<close>. The adapter reads only the names
  \<open>__ow_path\<close>, \<open>__ow_method\<close>, \<open>__ow_headers\<close>, \<open>__ow_body\<close>, \<open>__ow_isBase64Encoded\<close>,
  \<open>__ow_query\<close> and \<open>x-forwarded-for\<close>; none of them is an index, \<open>length\<close> or a member
  of a built-in prototype, so on a primitive or an array they read as \<open>undefined\<close>.
\<close>

fun getProp :: "jsval \<Rightarrow> string \<Rightarrow> js_error + jsval" where
  "getProp JUndefined k = Inl TypeError"
| "getProp JNull k = Inl TypeError"
| "getProp (JObj fs) k = Inr (case map_of fs k of None \<Rightarrow> JUndefined | Some v \<Rightarrow> v)"
| "getProp (JBool b) k = Inr JUndefined"
| "getProp (JNum n) k = Inr JUndefined"
| "getProp JNaN k = Inr JUndefined"
| "getProp (JStr s) k = Inr JUndefined"
| "getProp (JArr xs) k = Inr JUndefined"

text \<open>
  \<open>v[k] = x\<close> in strict mode (the file is an ES module): on an object the property is
  overwritten in place or appended; on \<open>undefined\<close>, \<open>null\<close> and the primitives it throws
  a TypeError. An array would take the name as an extra property, which \<open>JArr\<close> cannot
  hold.
\<close>

fun setProp :: "jsval \<Rightarrow> string \<Rightarrow> jsval \<Rightarrow> js_error + jsval" where
  "setProp (JObj fs) k x = Inr (JObj (AList.update k x fs))"
| "setProp (JArr xs) k x = Inl OutsideModel"
| "setProp JUndefined k x = Inl TypeError"
| "setProp JNull k x = Inl TypeError"
| "setProp (JBool b) k x = Inl TypeError"
| "setProp (JNum n) k x = Inl TypeError"
| "setProp JNaN k x = Inl TypeError"
| "setProp (JStr s) k x = Inl TypeError"

subsection \<open>canHandle\<close>

text \<open>
  \<^verbatim>\<open>
  return (
    !!digitalOceanHttpEvent &&
    digitalOceanHttpEvent.__ow_path !== undefined &&
    digitalOceanHttpEvent.__ow_method !== undefined &&
    digitalOceanHttpEvent.__ow_headers !== undefined
  );
  \<close>
  \<open>&&\<close> evaluates its right operand only when the left one is truthy.
\<close>

definition canHandle :: "jsval \<Rightarrow> js_error + bool" where
  "canHandle event =
     (if \<not> truthy event then Inr False
      else andThen (getProp event ''__ow_path'') (\<lambda>ow_path.
        if \<not> (ow_path \<noteq> JUndefined) then Inr False
        else andThen (getProp event ''__ow_method'') (\<lambda>ow_method.
          if \<not> (ow_method \<noteq> JUndefined) then Inr False
          else andThen (getProp event ''__ow_headers'') (\<lambda>ow_headers.
            Inr (ow_headers \<noteq> JUndefined)))))"

text \<open>The value of a property that is read without throwing, \<open>undefined\<close> otherwise.\<close>

definition field :: "jsval \<Rightarrow> string \<Rightarrow> jsval" where
  "field v k = (case getProp v k of Inl e \<Rightarrow> JUndefined | Inr x \<Rightarrow> x)"

subsection \<open>Utilities of the core package\<close>

text \<open>
  Modelled from the spec: \<open>getDefaultIfUndefined\<close> (\<^verbatim>\<open>src/core\<close>, not part of the
  adapter's file) returns the fallback only when the value is \<open>undefined\<close>.
\<close>

definition getDefaultIfUndefined :: "'a option \<Rightarrow> 'a \<Rightarrow> 'a" where
  "getDefaultIfUndefined v fallback = (case v of None \<Rightarrow> fallback | Some x \<Rightarrow> x)"

type_synonym byte = "8 word"

text \<open>UTF-8 of the code units U+0000 to U+00FF: one byte below U+0080, two bytes from there.\<close>

definition utf8Encode :: "string \<Rightarrow> byte list" where
  "utf8Encode s =
     concat (map (\<lambda>c. let n = (of_char c :: nat)
                       in if n < 128 then [of_nat n]
                          else [of_nat (192 + n div 64), of_nat (128 + n mod 64)]) s)"

text \<open>The value of a character of the base64 alphabet (RFC 4648).\<close>

definition base64Value :: "char \<Rightarrow> nat option" where
  "base64Value c =
     (let n = (of_char c :: nat)
      in if 65 \<le> n \<and> n \<le> 90 then Some (n - 65)
         else if 97 \<le> n \<and> n \<le> 122 then Some (n - 71)
         else if 48 \<le> n \<and> n \<le> 57 then Some (n + 4)
         else if c = CHR ''+'' then Some 62
         else if c = CHR ''/'' then Some 63
         else None)"

text \<open>Four 6-bit values give three bytes; a last group of three gives two, of two gives one.\<close>

fun base64Bytes :: "nat list \<Rightarrow> byte list" where
  "base64Bytes (a # b # c # d # rest) =
     [of_nat (a * 4 + b div 16), of_nat ((b mod 16) * 16 + c div 4), of_nat ((c mod 4) * 64 + d)]
       @ base64Bytes rest"
| "base64Bytes [a, b, c] = [of_nat (a * 4 + b div 16), of_nat ((b mod 16) * 16 + c div 4)]"
| "base64Bytes [a, b] = [of_nat (a * 4 + b div 16)]"
| "base64Bytes [a] = []"
| "base64Bytes [] = []"

text \<open>The data ends at the first padding character; characters outside the alphabet are skipped.\<close>

definition base64Decode :: "string \<Rightarrow> byte list" where
  "base64Decode s = base64Bytes (List.map_filter base64Value (takeWhile (\<lambda>c. c \<noteq> CHR ''='') s))"

text \<open>
  Modelled from the spec: \<open>getEventBodyAsBuffer\<close> (\<^verbatim>\<open>src/core\<close>). ``If base64-flagged,
  decode to raw bytes; otherwise treat the string as UTF-8 text encoded to bytes. Returns
  (bytes, byteLength). Byte length must reflect the decoded length.''
\<close>

definition getEventBodyAsBuffer :: "string \<Rightarrow> bool \<Rightarrow> byte list \<times> nat" where
  "getEventBodyAsBuffer rawBody isBase64Encoded =
     (let buffer = (if isBase64Encoded then base64Decode rawBody else utf8Encode rawBody)
      in (buffer, length buffer))"

text \<open>\<open>String(n)\<close> of a non-negative integer: its decimal digits.\<close>

fun String_of :: "nat \<Rightarrow> string" where
  "String_of n =
     (if n < 10 then [char_of (48 + n)]
      else String_of (n div 10) @ [char_of (48 + n mod 10)])"

declare String_of.simps [simp del]

text \<open>A header or query-parameter value: one string, or an ordered sequence of strings.\<close>

datatype multi = Single string | Multi "string list"

text \<open>\<open>xs.join(sep)\<close>\<close>

fun joinWith :: "string \<Rightarrow> string list \<Rightarrow> string" where
  "joinWith sep [] = []"
| "joinWith sep [x] = x"
| "joinWith sep (x # y # ys) = x @ sep @ joinWith sep (y # ys)"

text \<open>
  Modelled from the spec: \<open>getFlattenedHeadersMap\<close> (\<^verbatim>\<open>src/core\<close>). ``Multi-value
  entries are joined with a delimiter (comma) in their original order; single values pass
  through unchanged. Key casing is preserved as given.''
\<close>

definition flattenValue :: "multi \<Rightarrow> string" where
  "flattenValue v = (case v of Single s \<Rightarrow> s | Multi xs \<Rightarrow> joinWith '','' xs)"

definition getFlattenedHeadersMap :: "(string \<times> multi) list \<Rightarrow> (string \<times> string) list" where
  "getFlattenedHeadersMap headersMap = map (\<lambda>(k, v). (k, flattenValue v)) headersMap"

text \<open>
  Percent-encoding of a query component, as \<open>encodeURIComponent\<close> does it: the letters,
  the digits and \<open>- _ . ! ~ * ' ( )\<close> stay, every other byte of the UTF-8 form becomes
  \<open>%XX\<close>.
\<close>

definition unreservedChar :: "char \<Rightarrow> bool" where
  "unreservedChar c =
     (let n = (of_char c :: nat)
      in (65 \<le> n \<and> n \<le> 90) \<or> (97 \<le> n \<and> n \<le> 122) \<or> (48 \<le> n \<and> n \<le> 57)
         \<or> c \<in> set ''-_.!~*()'' \<or> c = CHR 0x27)"

definition hexDigit :: "nat \<Rightarrow> char" where
  "hexDigit n = ''0123456789ABCDEF'' ! (n mod 16)"

definition percentEncode :: "string \<Rightarrow> string" where
  "percentEncode s =
     concat (map (\<lambda>b. let n = unat b
                       in if n < 128 \<and> unreservedChar (char_of n) then [char_of n]
                          else [CHR ''%'', hexDigit (n div 16), hexDigit n]) (utf8Encode s))"

text \<open>
  Modelled from the spec: \<open>getPathWithQueryStringParams\<close> (\<^verbatim>\<open>src/core\<close>). ``Output is a
  single string path optionally followed by ? and URL-encoded key=value pairs; multi-value
  query parameters are emitted as repeated key=value pairs in their original order; an
  empty query map yields the bare path with no trailing ?.''
\<close>

definition queryPairs :: "string \<times> multi \<Rightarrow> string list" where
  "queryPairs kv =
     (case kv of (k, v) \<Rightarrow>
        map (\<lambda>s. percentEncode k @ ''='' @ percentEncode s)
            (case v of Single s \<Rightarrow> [s] | Multi xs \<Rightarrow> xs))"

definition getPathWithQueryStringParams :: "string \<Rightarrow> (string \<times> multi) list \<Rightarrow> string" where
  "getPathWithQueryStringParams path queryParams =
     (if queryParams = [] then path
      else path @ ''?'' @ joinWith ''&'' (concat (map queryPairs queryParams)))"

text \<open>
  The utilities are typed; these read their arguments out of untyped values. A value of
  another shape than the declared one leaves what the spec says about the utility.
\<close>

fun asString :: "jsval \<Rightarrow> string option" where
  "asString (JStr s) = Some s"
| "asString v = None"

fun asValues :: "jsval \<Rightarrow> multi option" where
  "asValues (JStr s) = Some (Single s)"
| "asValues (JArr xs) = map_option Multi (those (map asString xs))"
| "asValues v = None"

fun asQueryParams :: "jsval \<Rightarrow> (string \<times> multi) list option" where
  "asQueryParams (JObj fs) = those (map (\<lambda>(k, v). map_option (Pair k) (asValues v)) fs)"
| "asQueryParams v = None"

subsection \<open>Regular expressions\<close>

text \<open>
  \<open>new RegExp(p)\<close> and \<open>s.replace(re, '')\<close> for the patterns made of ordinary
  characters, \<open>.\<close> (any character but a line terminator), \<open>^\<close> (start of input, no
  multiline flag) and \<open>|\<close> (alternatives, tried left to right). A pattern with one of
  \<open>\ $ * + ? ( ) [ ] { }\<close> is outside the model.
\<close>

datatype atom = Lit char | Dot | AssertStart

type_synonym regexp = "atom list list"

definition parseAtom :: "char \<Rightarrow> atom option" where
  "parseAtom c =
     (if c = CHR ''^'' then Some AssertStart
      else if c = CHR ''.'' then Some Dot
      else if c \<in> set ''$*+?()[]{}|'' \<or> c = CHR 0x5C then None
      else Some (Lit c))"

fun splitAlternatives :: "string \<Rightarrow> string list" where
  "splitAlternatives [] = [[]]"
| "splitAlternatives (c # s) =
     (if c = CHR ''|'' then [] # splitAlternatives s
      else (case splitAlternatives s of
              [] \<Rightarrow> [[c]]
            | a # as \<Rightarrow> (c # a) # as))"

definition RegExp_new :: "string \<Rightarrow> js_error + regexp" where
  "RegExp_new pattern =
     (case those (map (\<lambda>alt. those (map parseAtom alt)) (splitAlternatives pattern)) of
        None \<Rightarrow> Inl OutsideModel
      | Some re \<Rightarrow> Inr re)"

definition lineTerminator :: "char \<Rightarrow> bool" where
  "lineTerminator c = (c = CHR 0x0A \<or> c = CHR 0x0D)"

text \<open>
  Matching a sequence of atoms at the head of \<open>s\<close>; \<open>atStart\<close> says whether that is
  position 0 of the input. The result is what is left of \<open>s\<close> after the match.
\<close>

fun matchAtoms :: "atom list \<Rightarrow> bool \<Rightarrow> string \<Rightarrow> string option" where
  "matchAtoms [] atStart s = Some s"
| "matchAtoms (AssertStart # as) atStart s = (if atStart then matchAtoms as atStart s else None)"
| "matchAtoms (Lit x # as) atStart [] = None"
| "matchAtoms (Dot # as) atStart [] = None"
| "matchAtoms (Lit x # as) atStart (c # s) = (if c = x then matchAtoms as False s else None)"
| "matchAtoms (Dot # as) atStart (c # s) =
     (if \<not> lineTerminator c then matchAtoms as False s else None)"

fun matchAlternatives :: "regexp \<Rightarrow> bool \<Rightarrow> string \<Rightarrow> string option" where
  "matchAlternatives [] atStart s = None"
| "matchAlternatives (a # as) atStart s =
     (case matchAtoms a atStart s of
        Some rest \<Rightarrow> Some rest
      | None \<Rightarrow> matchAlternatives as atStart s)"

text \<open>
  \<open>s.replace(re, '')\<close> without the global flag: the first position, from the left, where
  the pattern matches; the match is removed; without a match the string is returned as it is.
\<close>

fun removeFirstMatch :: "regexp \<Rightarrow> bool \<Rightarrow> string \<Rightarrow> string" where
  "removeFirstMatch re atStart [] =
     (case matchAlternatives re atStart [] of Some rest \<Rightarrow> rest | None \<Rightarrow> [])"
| "removeFirstMatch re atStart (c # s) =
     (case matchAlternatives re atStart (c # s) of
        Some rest \<Rightarrow> rest
      | None \<Rightarrow> c # removeFirstMatch re False s)"

text \<open>
  \<open>v.replace(re, '')\<close> on a value: only a string has the method; on \<open>undefined\<close> and
  \<open>null\<close> the property read throws, on every other value the call of a non-function does.
\<close>

fun String_replace :: "jsval \<Rightarrow> regexp \<Rightarrow> js_error + string" where
  "String_replace (JStr s) re = Inr (removeFirstMatch re True s)"
| "String_replace v re = Inl TypeError"

subsection \<open>The adapter\<close>

record HttpFunctionAdapterOptions =
  stripBasePath :: "string option"

text \<open>The canonical request \<open>getRequest\<close> returns (\<open>AdapterRequest\<close>).\<close>

record AdapterRequest =
  req_method :: jsval
  req_headers :: jsval
  req_body :: "byte list option"
  req_remoteAddress :: jsval
  req_path :: string

text \<open>What \<open>getResponse\<close> is given (the logger, never used, is left out).\<close>

record GetResponseAdapterProps =
  props_headers :: "(string \<times> multi) list"
  props_body :: string
  props_statusCode :: int
  props_event :: jsval
  props_isBase64Encoded :: bool

record DigitalOceanHttpResponse =
  res_statusCode :: int
  res_body :: string
  res_headers :: "(string \<times> string) list"

text \<open>An \<open>Error\<close> object; its \<open>stack\<close> is optional.\<close>

record ErrorObject =
  err_name :: string
  err_message :: string
  err_stack :: "string option"

text \<open>
  The resolver the dispatcher hands over, as the list of the responses \<open>succeed\<close> was
  called with, in order.
\<close>

record DelegatedResolver =
  succeeded :: "DigitalOceanHttpResponse list"

definition succeed :: "DelegatedResolver \<Rightarrow> DigitalOceanHttpResponse \<Rightarrow> DelegatedResolver" where
  "succeed r response = r\<lparr>succeeded := succeeded r @ [response]\<rparr>"

text \<open>
  What reaches \<open>onErrorWhileForwarding\<close> as \<open>error\<close>. It is declared an \<open>Error\<close>, but the
  declaration is erased at run time and a handler can throw or reject with any value;
  \<open>null\<close> and \<open>undefined\<close> are the two on which reading a property throws. Every other
  value reads its \<open>stack\<close> as a string or as \<open>undefined\<close>, as an \<open>Error\<close> object does.
\<close>

datatype thrown = ThrownUndefined | ThrownNull | ThrownError ErrorObject

fun nullish :: "thrown \<Rightarrow> bool" where
  "nullish ThrownUndefined = True"
| "nullish ThrownNull = True"
| "nullish (ThrownError e) = False"

text \<open>\<open>error.stack\<close>\<close>

fun readStack :: "thrown \<Rightarrow> js_error + string option" where
  "readStack ThrownUndefined = Inl TypeError"
| "readStack ThrownNull = Inl TypeError"
| "readStack (ThrownError e) = Inr (err_stack e)"

text \<open>
  What \<open>onErrorWhileForwarding\<close> is given, besides the resolver: the error, the flag, a
  boolean, and the event (the logger is left out).
\<close>

record OnErrorProps =
  on_error :: thrown
  on_respondWithErrors :: bool
  on_event :: jsval

text \<open>\<open>this.options?.stripBasePath\<close>: \<open>undefined\<close> when the adapter was built without options.\<close>

definition optionalStripBasePath :: "HttpFunctionAdapterOptions option \<Rightarrow> string option" where
  "optionalStripBasePath options = (case options of None \<Rightarrow> None | Some opts \<Rightarrow> stripBasePath opts)"

text \<open>
  \<^verbatim>\<open>
  const stripBasePath = getDefaultIfUndefined(this.options?.stripBasePath, '');
  const replaceRegex = new RegExp(`^${stripBasePath}`);
  const path = event.__ow_path.replace(replaceRegex, '');
  const queryParams = event.__ow_query;
  return getPathWithQueryStringParams(path, queryParams || {});
  \<close>
\<close>

definition getPathFromEvent :: "HttpFunctionAdapterOptions option \<Rightarrow> jsval \<Rightarrow> js_error + string" where
  "getPathFromEvent options event =
     (let basePath = getDefaultIfUndefined (optionalStripBasePath options) ''''
      in andThen (RegExp_new (''^'' @ basePath)) (\<lambda>replaceRegex.
         andThen (getProp event ''__ow_path'') (\<lambda>ow_path.
         andThen (String_replace ow_path replaceRegex) (\<lambda>path.
         andThen (getProp event ''__ow_query'') (\<lambda>queryParams.
           case asQueryParams (if truthy queryParams then queryParams else JObj []) of
             None \<Rightarrow> Inl OutsideModel
           | Some q \<Rightarrow> Inr (getPathWithQueryStringParams path q))))))"

text \<open>
  An object \<open>v\<close> seen after the object that its property \<open>k\<close> refers to was changed in
  place and is now \<open>x\<close>: objects are held by reference, so the change shows in \<open>v\<close>.
\<close>

fun inPlace :: "jsval \<Rightarrow> string \<Rightarrow> jsval \<Rightarrow> jsval" where
  "inPlace (JObj fs) k x = JObj (AList.update k x fs)"
| "inPlace v k x = v"

text \<open>
  \<^verbatim>\<open>
  const headers = event.__ow_headers;
  const method = event.__ow_method;
  const path = this.getPathFromEvent(event);
  let body: Buffer | undefined;
  if (event.__ow_body) {
    const [bufferBody, contentLength] = getEventBodyAsBuffer(
      event.__ow_body, !!event.__ow_isBase64Encoded);
    body = bufferBody;
    headers['content-length'] = String(contentLength);
  }
  const remoteAddress = headers['x-forwarded-for'];
  return { method, headers, body, remoteAddress, path };
  \<close>
  The local \<open>headers\<close> is the event's own \<open>__ow_headers\<close> object, not a copy, so the
  assignment to \<open>headers['content-length']\<close> is an assignment into the event. The model
  returns the event as it is after the call, next to the request.
\<close>

definition getRequest ::
  "HttpFunctionAdapterOptions option \<Rightarrow> jsval \<Rightarrow> js_error + (jsval \<times> AdapterRequest)" where
  "getRequest options event =
     andThen (getProp event ''__ow_headers'') (\<lambda>hdrs.
     andThen (getProp event ''__ow_method'') (\<lambda>method.
     andThen (getPathFromEvent options event) (\<lambda>path.
     andThen (getProp event ''__ow_body'') (\<lambda>ow_body.
     andThen
       (if truthy ow_body then
          andThen (getProp event ''__ow_isBase64Encoded'') (\<lambda>isBase64Encoded.
          case asString ow_body of
            None \<Rightarrow> Inl OutsideModel
          | Some s \<Rightarrow>
              (case getEventBodyAsBuffer s (truthy isBase64Encoded) of
                 (bufferBody, contentLength) \<Rightarrow>
                   andThen (setProp hdrs ''content-length'' (JStr (String_of contentLength)))
                     (\<lambda>hdrs'.
                        Inr (Some bufferBody, hdrs', inPlace event ''__ow_headers'' hdrs'))))
        else Inr (None, hdrs, event))
       (\<lambda>(body, hdrs', event').
          andThen (getProp hdrs' ''x-forwarded-for'') (\<lambda>remoteAddress.
            Inr (event',
                 \<lparr>req_method = method, req_headers = hdrs', req_body = body,
                  req_remoteAddress = remoteAddress, req_path = path\<rparr>)))))))"

text \<open>
  \<^verbatim>\<open>
  const headers = getFlattenedHeadersMap(responseHeaders);
  return { statusCode, body, headers };
  \<close>
\<close>

definition getResponse :: "GetResponseAdapterProps \<Rightarrow> DigitalOceanHttpResponse" where
  "getResponse props =
     (let flattened = getFlattenedHeadersMap (props_headers props)
      in \<lparr>res_statusCode = props_statusCode props, res_body = props_body props,
          res_headers = flattened\<rparr>)"

text \<open>\<open>a || b\<close> on an optional string: \<open>undefined\<close> and \<open>''\<close> are falsy.\<close>

definition orElse :: "string option \<Rightarrow> string \<Rightarrow> string" where
  "orElse a b = (case a of None \<Rightarrow> b | Some s \<Rightarrow> if s = [] then b else s)"

text \<open>
  \<^verbatim>\<open>
  const body = respondWithErrors ? error.stack : '';
  const errorResponse = this.getResponse({
    event, statusCode: 500, body: body || '', headers: {}, isBase64Encoded: false, log });
  delegatedResolver.succeed(errorResponse);
  \<close>
  There is no \<open>try\<close> around any of it: when \<open>error.stack\<close> throws, the method throws and
  \<open>succeed\<close> has not been called. The model returns the resolver as it is when the method
  ends, and how it ended.
\<close>

definition onErrorWhileForwarding ::
  "OnErrorProps \<Rightarrow> DelegatedResolver \<Rightarrow> DelegatedResolver \<times> (js_error + unit)" where
  "onErrorWhileForwarding props delegatedResolver =
     (case (if on_respondWithErrors props then readStack (on_error props) else Inr (Some '''')) of
        Inl e \<Rightarrow> (delegatedResolver, Inl e)
      | Inr body \<Rightarrow>
          (let errorResponse =
                 getResponse \<lparr>props_headers = [], props_body = orElse body '''',
                              props_statusCode = 500, props_event = on_event props,
                              props_isBase64Encoded = False\<rparr>
           in (succeed delegatedResolver errorResponse, Inr ())))"

subsection \<open>Well-typed events and literal base paths\<close>

text \<open>
  Modelled from the spec: the type \<open>DigitalOceanHttpEvent\<close> (\<^verbatim>\<open>src/@types/digital-ocean\<close>,
  not part of the adapter's file). ``Must expose, at minimum, fields equivalent to: request
  path, HTTP method, headers map, optional raw body, optional base64-flag, optional
  query-parameters map.''
\<close>

fun isStr :: "jsval \<Rightarrow> bool" where
  "isStr (JStr s) = True"
| "isStr v = False"

fun isBool :: "jsval \<Rightarrow> bool" where
  "isBool (JBool b) = True"
| "isBool v = False"

fun isObj :: "jsval \<Rightarrow> bool" where
  "isObj (JObj fs) = True"
| "isObj v = False"

definition isHttpEvent :: "jsval \<Rightarrow> bool" where
  "isHttpEvent ev =
     (isStr (field ev ''__ow_path'') \<and> isStr (field ev ''__ow_method'')
      \<and> isObj (field ev ''__ow_headers'')
      \<and> (field ev ''__ow_body'' = JUndefined \<or> isStr (field ev ''__ow_body''))
      \<and> (field ev ''__ow_isBase64Encoded'' = JUndefined
           \<or> isBool (field ev ''__ow_isBase64Encoded''))
      \<and> (field ev ''__ow_query'' = JUndefined
           \<or> asQueryParams (field ev ''__ow_query'') \<noteq> None))"

text \<open>A base path in which every character stands for itself when read as a pattern.\<close>

definition literalPattern :: "string \<Rightarrow> bool" where
  "literalPattern b = list_all (\<lambda>c. parseAtom c = Some (Lit c)) b"

text \<open>The query parameters of a well-typed event (none when the field is absent).\<close>

definition queryParamsOf :: "jsval \<Rightarrow> (string \<times> multi) list" where
  "queryParamsOf ev =
     (case asQueryParams (field ev ''__ow_query'') of None \<Rightarrow> [] | Some q \<Rightarrow> q)"

subsection \<open>Example events\<close>

text \<open>
  \<open>{__ow_path: "/api/users", __ow_method: "post", __ow_headers: {accept: "*/*"},
  __ow_body: "aGVsbG8=", __ow_isBase64Encoded: true, __ow_query: {id: "1", tag: ["a", "b"]}}\<close>:
  the body is the base64 form of \<open>hello\<close>.
\<close>

definition helloEvent :: jsval where
  "helloEvent =
     JObj [(''__ow_path'', JStr ''/api/users''), (''__ow_method'', JStr ''post''),
           (''__ow_headers'', JObj [(''accept'', JStr ''*/*'')]),
           (''__ow_body'', JStr ''aGVsbG8=''), (''__ow_isBase64Encoded'', JBool True),
           (''__ow_query'', JObj [(''id'', JStr ''1''), (''tag'', JArr [JStr ''a'', JStr ''b''])])]"

text \<open>\<open>{__ow_path: "/other/api/x", __ow_method: "get", __ow_headers: {}}\<close>\<close>

definition otherEvent :: jsval where
  "otherEvent =
     JObj [(''__ow_path'', JStr ''/other/api/x''), (''__ow_method'', JStr ''get''),
           (''__ow_headers'', JObj [])]"

text \<open>\<open>{__ow_path: "", __ow_method: "get", __ow_headers: {}}\<close>\<close>

definition emptyPathEvent :: jsval where
  "emptyPathEvent =
     JObj [(''__ow_path'', JStr ''''), (''__ow_method'', JStr ''get''), (''__ow_headers'', JObj [])]"

text \<open>\<open>{__ow_path: null, __ow_method: "get", __ow_headers: {}}\<close>\<close>

definition nullPathEvent :: jsval where
  "nullPathEvent =
     JObj [(''__ow_path'', JNull), (''__ow_method'', JStr ''get''), (''__ow_headers'', JObj [])]"




section \<open>Properties\<close>

lemma getProp_truthy: "truthy v \<Longrightarrow> getProp v k = Inr (field v k)"
  by (cases v) (simp_all add: field_def)

text \<open>
  C4: on every value, \<open>canHandle\<close> returns (it never throws), and the answer is true
  exactly when the value is truthy and its \<open>__ow_path\<close>, \<open>__ow_method\<close> and
  \<open>__ow_headers\<close> are all defined; on everything else it returns false.
\<close>

theorem canHandle_total:
  "canHandle v = Inr (truthy v \<and> field v ''__ow_path'' \<noteq> JUndefined
                      \<and> field v ''__ow_method'' \<noteq> JUndefined
                      \<and> field v ''__ow_headers'' \<noteq> JUndefined)"
  by (cases "truthy v") (simp_all add: canHandle_def andThen_def getProp_truthy)


lemma onErrorWhileForwarding_resolves:
  assumes "\<not> (on_respondWithErrors props \<and> nullish (on_error props))"
  shows "onErrorWhileForwarding props r =
           (succeed r \<lparr>res_statusCode = 500,
                        res_body = (if on_respondWithErrors props
                                    then (case readStack (on_error props) of
                                            Inr (Some s) \<Rightarrow> s | _ \<Rightarrow> '''')
                                    else ''''),
                        res_headers = []\<rparr>,
            Inr ())"
proof (cases "on_respondWithErrors props")
  case False
  then show ?thesis
    by (simp add: onErrorWhileForwarding_def getResponse_def getFlattenedHeadersMap_def orElse_def)
next
  case True
  with assms obtain e where "on_error props = ThrownError e"
    by (cases "on_error props") simp_all
  with True show ?thesis
    by (simp add: onErrorWhileForwarding_def getResponse_def getFlattenedHeadersMap_def orElse_def
        split: option.split)
qed

lemma onErrorWhileForwarding_throws:
  assumes "on_respondWithErrors props" and "nullish (on_error props)"
  shows "onErrorWhileForwarding props r = (r, Inl TypeError)"
  using assms by (cases "on_error props") (simp_all add: onErrorWhileForwarding_def)

text \<open>
  C2, as stated, fails: with \<open>respondWithErrors = true\<close> and a handler that threw \<open>null\<close>,
  \<open>onErrorWhileForwarding\<close> throws a TypeError and the resolver is as before: \<open>succeed\<close> was
  not called.
\<close>

theorem onErrorWhileForwarding_throws_counterexample:
  "onErrorWhileForwarding
     \<lparr>on_error = ThrownNull, on_respondWithErrors = True, on_event = otherEvent\<rparr>
     \<lparr>succeeded = []\<rparr>
   = (\<lparr>succeeded = []\<rparr>, Inl TypeError)"
  by (simp add: onErrorWhileForwarding_def)

text \<open>
  C2, amended: when \<open>respondWithErrors\<close> is false, or the error is anything but \<open>null\<close> and
  \<open>undefined\<close>, \<open>onErrorWhileForwarding\<close> returns without throwing and has called \<open>succeed\<close>
  exactly once: the resolver holds one response more than before. When \<open>respondWithErrors\<close>
  is true and the error is \<open>null\<close> or \<open>undefined\<close>, it throws a TypeError and has not called
  \<open>succeed\<close>.
\<close>

theorem onErrorWhileForwarding_completion:
  "(\<not> (on_respondWithErrors props \<and> nullish (on_error props)) \<longrightarrow>
      snd (onErrorWhileForwarding props r) = Inr ()
      \<and> succeeded (fst (onErrorWhileForwarding props r)) =
          succeeded r @ [last (succeeded (fst (onErrorWhileForwarding props r)))]
      \<and> length (succeeded (fst (onErrorWhileForwarding props r))) = Suc (length (succeeded r)))
   \<and> (on_respondWithErrors props \<and> nullish (on_error props) \<longrightarrow>
      onErrorWhileForwarding props r = (r, Inl TypeError))"
  by (auto simp add: onErrorWhileForwarding_resolves onErrorWhileForwarding_throws succeed_def)

theorem onErrorWhileForwarding_completion_witness:
  "\<not> (on_respondWithErrors
         \<lparr>on_error = ThrownUndefined, on_respondWithErrors = False, on_event = otherEvent\<rparr>
       \<and> nullish (on_error
         \<lparr>on_error = ThrownUndefined, on_respondWithErrors = False, on_event = otherEvent\<rparr>))
   \<and> snd (onErrorWhileForwarding
         \<lparr>on_error = ThrownUndefined, on_respondWithErrors = False, on_event = otherEvent\<rparr>
         \<lparr>succeeded = []\<rparr>) = Inr ()
   \<and> length (succeeded (fst (onErrorWhileForwarding
         \<lparr>on_error = ThrownUndefined, on_respondWithErrors = False, on_event = otherEvent\<rparr>
         \<lparr>succeeded = []\<rparr>))) = 1
   \<and> onErrorWhileForwarding
         \<lparr>on_error = ThrownUndefined, on_respondWithErrors = True, on_event = otherEvent\<rparr>
         \<lparr>succeeded = []\<rparr>
       = (\<lparr>succeeded = []\<rparr>, Inl TypeError)"
  using onErrorWhileForwarding_completion
    [of "\<lparr>on_error = ThrownUndefined, on_respondWithErrors = False, on_event = otherEvent\<rparr>"
        "\<lparr>succeeded = []\<rparr>"]
    onErrorWhileForwarding_completion
    [of "\<lparr>on_error = ThrownUndefined, on_respondWithErrors = True, on_event = otherEvent\<rparr>"
        "\<lparr>succeeded = []\<rparr>"]
  by simp

text \<open>
  C3: with \<open>respondWithErrors = false\<close> the exchange is resolved with a response of status
  500 whose body is the empty string, whatever was thrown; with \<open>respondWithErrors = true\<close>
  and an error object, it is resolved with a response of status 500 whose body is the
  error's stack (the empty string when the error has none).
\<close>

theorem error_body_gated:
  "(\<not> on_respondWithErrors props \<longrightarrow>
      snd (onErrorWhileForwarding props r) = Inr ()
      \<and> res_statusCode (last (succeeded (fst (onErrorWhileForwarding props r)))) = 500
      \<and> res_body (last (succeeded (fst (onErrorWhileForwarding props r)))) = '''')
   \<and> (on_respondWithErrors props \<and> on_error props = ThrownError e \<longrightarrow>
      snd (onErrorWhileForwarding props r) = Inr ()
      \<and> res_statusCode (last (succeeded (fst (onErrorWhileForwarding props r)))) = 500
      \<and> res_body (last (succeeded (fst (onErrorWhileForwarding props r)))) =
          (case err_stack e of None \<Rightarrow> '''' | Some s \<Rightarrow> s))"
  by (auto simp add: onErrorWhileForwarding_resolves succeed_def split: option.split)

theorem error_body_gated_witness:
  "\<not> on_respondWithErrors
       \<lparr>on_error = ThrownNull, on_respondWithErrors = False, on_event = otherEvent\<rparr>
   \<and> res_statusCode (last (succeeded (fst (onErrorWhileForwarding
         \<lparr>on_error = ThrownNull, on_respondWithErrors = False, on_event = otherEvent\<rparr>
         \<lparr>succeeded = []\<rparr>)))) = 500
   \<and> res_body (last (succeeded (fst (onErrorWhileForwarding
         \<lparr>on_error = ThrownNull, on_respondWithErrors = False, on_event = otherEvent\<rparr>
         \<lparr>succeeded = []\<rparr>)))) = ''''
   \<and> res_body (last (succeeded (fst (onErrorWhileForwarding
         \<lparr>on_error = ThrownError \<lparr>err_name = ''Error'', err_message = ''boom'',
                                  err_stack = Some ''Error: boom at handler''\<rparr>,
          on_respondWithErrors = True, on_event = otherEvent\<rparr>
         \<lparr>succeeded = []\<rparr>)))) = ''Error: boom at handler''"
  using error_body_gated
    [of "\<lparr>on_error = ThrownNull, on_respondWithErrors = False, on_event = otherEvent\<rparr>"
        "\<lparr>succeeded = []\<rparr>"]
    error_body_gated
    [where props = "\<lparr>on_error = ThrownError \<lparr>err_name = ''Error'', err_message = ''boom'',
                                   err_stack = Some ''Error: boom at handler''\<rparr>,
          on_respondWithErrors = True, on_event = otherEvent\<rparr>"
       and e = "\<lparr>err_name = ''Error'', err_message = ''boom'', err_stack = Some ''Error: boom at handler''\<rparr>"
       and r = "\<lparr>succeeded = []\<rparr>"]
  by simp

text \<open>
  C9: the body of the error response is a string in every case; with
  \<open>respondWithErrors = true\<close> and an error whose stack is \<open>undefined\<close> or empty, the exchange
  is resolved and the body is the empty string.
\<close>

theorem error_body_empty_without_stack:
  assumes "on_respondWithErrors props" and "on_error props = ThrownError e"
    and "err_stack e = None \<or> err_stack e = Some ''''"
  shows "snd (onErrorWhileForwarding props r) = Inr ()
     \<and> res_body (last (succeeded (fst (onErrorWhileForwarding props r)))) = ''''"
  using assms by (auto simp add: onErrorWhileForwarding_resolves succeed_def)

theorem error_body_empty_without_stack_witness:
  "on_respondWithErrors
      \<lparr>on_error = ThrownError \<lparr>err_name = ''Error'', err_message = ''boom'', err_stack = None\<rparr>,
       on_respondWithErrors = True, on_event = otherEvent\<rparr>
   \<and> snd (onErrorWhileForwarding
        \<lparr>on_error = ThrownError \<lparr>err_name = ''Error'', err_message = ''boom'', err_stack = None\<rparr>,
         on_respondWithErrors = True, on_event = otherEvent\<rparr> \<lparr>succeeded = []\<rparr>) = Inr ()
   \<and> res_body (last (succeeded (fst (onErrorWhileForwarding
        \<lparr>on_error = ThrownError \<lparr>err_name = ''Error'', err_message = ''boom'', err_stack = None\<rparr>,
         on_respondWithErrors = True, on_event = otherEvent\<rparr> \<lparr>succeeded = []\<rparr>)))) = ''''"
  using error_body_empty_without_stack
    [where props = "\<lparr>on_error = ThrownError \<lparr>err_name = ''Error'', err_message = ''boom'', err_stack = None\<rparr>,
         on_respondWithErrors = True, on_event = otherEvent\<rparr>"
       and e = "\<lparr>err_name = ''Error'', err_message = ''boom'', err_stack = None\<rparr>"
       and r = "\<lparr>succeeded = []\<rparr>"]
  by simp

text \<open>
  C10: whatever the error, the event and the flag, a response that \<open>onErrorWhileForwarding\<close>
  hands to \<open>succeed\<close> has status 500 and no headers; it hands one over whenever the flag
  is false or the error is an error object, and nothing is handed over when it throws.
\<close>

theorem error_response_500_no_headers:
  "(\<not> on_respondWithErrors props \<or> on_error props = ThrownError e \<longrightarrow>
      snd (onErrorWhileForwarding props r) = Inr ())
   \<and> (snd (onErrorWhileForwarding props r) = Inr () \<longrightarrow>
        succeeded (fst (onErrorWhileForwarding props r)) =
          succeeded r @ [last (succeeded (fst (onErrorWhileForwarding props r)))]
        \<and> res_statusCode (last (succeeded (fst (onErrorWhileForwarding props r)))) = 500
        \<and> res_headers (last (succeeded (fst (onErrorWhileForwarding props r)))) = [])
   \<and> (snd (onErrorWhileForwarding props r) \<noteq> Inr () \<longrightarrow>
        fst (onErrorWhileForwarding props r) = r)"
proof (cases "on_respondWithErrors props \<and> nullish (on_error props)")
  case True
  then show ?thesis by (auto simp add: onErrorWhileForwarding_throws)
next
  case False
  then show ?thesis by (auto simp add: onErrorWhileForwarding_resolves succeed_def)
qed

theorem error_response_500_no_headers_witness:
  "snd (onErrorWhileForwarding
        \<lparr>on_error = ThrownError \<lparr>err_name = ''Error'', err_message = ''boom'', err_stack = None\<rparr>,
         on_respondWithErrors = True, on_event = otherEvent\<rparr> \<lparr>succeeded = []\<rparr>) = Inr ()
   \<and> res_statusCode (last (succeeded (fst (onErrorWhileForwarding
        \<lparr>on_error = ThrownError \<lparr>err_name = ''Error'', err_message = ''boom'', err_stack = None\<rparr>,
         on_respondWithErrors = True, on_event = otherEvent\<rparr> \<lparr>succeeded = []\<rparr>)))) = 500
   \<and> res_headers (last (succeeded (fst (onErrorWhileForwarding
        \<lparr>on_error = ThrownError \<lparr>err_name = ''Error'', err_message = ''boom'', err_stack = None\<rparr>,
         on_respondWithErrors = True, on_event = otherEvent\<rparr> \<lparr>succeeded = []\<rparr>)))) = []
   \<and> fst (onErrorWhileForwarding
        \<lparr>on_error = ThrownNull, on_respondWithErrors = True, on_event = otherEvent\<rparr>
        \<lparr>succeeded = []\<rparr>) = \<lparr>succeeded = []\<rparr>"
  using error_response_500_no_headers
    [where props = "\<lparr>on_error = ThrownError \<lparr>err_name = ''Error'', err_message = ''boom'', err_stack = None\<rparr>,
         on_respondWithErrors = True, on_event = otherEvent\<rparr>"
       and e = "\<lparr>err_name = ''Error'', err_message = ''boom'', err_stack = None\<rparr>"
       and r = "\<lparr>succeeded = []\<rparr>"]
    error_response_500_no_headers
    [where props = "\<lparr>on_error = ThrownNull, on_respondWithErrors = True, on_event = otherEvent\<rparr>"
       and e = "\<lparr>err_name = ''Error'', err_message = ''boom'', err_stack = None\<rparr>"
       and r = "\<lparr>succeeded = []\<rparr>"]
  by (simp add: onErrorWhileForwarding_def)

lemma map_of_flattened:
  "map_of (getFlattenedHeadersMap hs) k = map_option flattenValue (map_of hs k)"
  by (induction hs) (auto simp add: getFlattenedHeadersMap_def)

lemma map_fst_flattened: "map fst (getFlattenedHeadersMap hs) = map fst hs"
  by (induction hs) (auto simp add: getFlattenedHeadersMap_def)

text \<open>
  C8: \<open>getResponse\<close> passes the status code and the body through and flattens the
  headers: the same names in the same order, a multi-valued entry joined with commas in its
  order, a single value as it is; \<open>{"set-cookie": ["a=1","b=2"]}\<close> becomes
  \<open>{"set-cookie": "a=1,b=2"}\<close>.
\<close>

theorem getResponse_flattens:
  "res_statusCode (getResponse props) = props_statusCode props
   \<and> res_body (getResponse props) = props_body props
   \<and> map fst (res_headers (getResponse props)) = map fst (props_headers props)
   \<and> map_of (res_headers (getResponse props)) k =
       (case map_of (props_headers props) k of
          None \<Rightarrow> None
        | Some (Single s) \<Rightarrow> Some s
        | Some (Multi xs) \<Rightarrow> Some (joinWith '','' xs))
   \<and> res_headers (getResponse (props\<lparr>props_headers := [(''set-cookie'', Multi [''a=1'', ''b=2''])]\<rparr>))
       = [(''set-cookie'', ''a=1,b=2'')]"
proof -
  have status: "res_statusCode (getResponse props) = props_statusCode props"
    and body: "res_body (getResponse props) = props_body props"
    by (simp_all add: getResponse_def)
  have names: "map fst (res_headers (getResponse props)) = map fst (props_headers props)"
    by (simp add: getResponse_def map_fst_flattened)
  have lookup: "map_of (res_headers (getResponse props)) k =
       (case map_of (props_headers props) k of
          None \<Rightarrow> None
        | Some (Single s) \<Rightarrow> Some s
        | Some (Multi xs) \<Rightarrow> Some (joinWith '','' xs))"
    by (simp add: getResponse_def map_of_flattened flattenValue_def
        split: option.split multi.split)
  have cookie: "res_headers (getResponse (props\<lparr>props_headers := [(''set-cookie'', Multi [''a=1'', ''b=2''])]\<rparr>))
       = [(''set-cookie'', ''a=1,b=2'')]"
    by (simp add: getResponse_def getFlattenedHeadersMap_def flattenValue_def)
  from status body names lookup cookie show ?thesis by blast
qed

lemma literal_no_bar: "literalPattern b \<Longrightarrow> CHR ''|'' \<notin> set b"
  by (induction b) (auto simp add: literalPattern_def parseAtom_def split: if_splits)

lemma splitAlternatives_no_bar: "CHR ''|'' \<notin> set s \<Longrightarrow> splitAlternatives s = [s]"
  by (induction s) auto

lemma those_parse_literal: "literalPattern b \<Longrightarrow> those (map parseAtom b) = Some (map Lit b)"
  by (induction b) (auto simp add: literalPattern_def)

lemma RegExp_new_literal:
  assumes "literalPattern b"
  shows "RegExp_new (''^'' @ b) = Inr [AssertStart # map Lit b]"
proof -
  have "splitAlternatives (''^'' @ b) = [''^'' @ b]"
    using assms by (simp add: splitAlternatives_no_bar literal_no_bar)
  moreover have "those (map parseAtom (''^'' @ b)) = Some (AssertStart # map Lit b)"
    using assms by (simp add: those_parse_literal parseAtom_def)
  ultimately show ?thesis by (simp add: RegExp_new_def)
qed

lemma matchAtoms_literal:
  "matchAtoms (map Lit b) atStart s = (if prefix b s then Some (drop (length b) s) else None)"
proof (induction b arbitrary: s atStart)
  case Nil
  then show ?case by simp
next
  case (Cons x b)
  then show ?case by (cases s) auto
qed

lemma removeFirstMatch_anchored_later:
  "removeFirstMatch [AssertStart # as] False s = s"
  by (induction s) simp_all

lemma removeFirstMatch_literal:
  "removeFirstMatch [AssertStart # map Lit b] True s =
     (if prefix b s then drop (length b) s else s)"
  by (cases s) (simp_all add: matchAtoms_literal removeFirstMatch_anchored_later)

lemma getPathWithQueryStringParams_empty:
  "getPathWithQueryStringParams p q = [] \<longleftrightarrow> p = [] \<and> q = []"
  by (simp add: getPathWithQueryStringParams_def)

lemma isStr_iff: "isStr v \<longleftrightarrow> (\<exists>s. v = JStr s)"
  by (cases v) simp_all

lemma isObj_iff: "isObj v \<longleftrightarrow> (\<exists>fs. v = JObj fs)"
  by (cases v) simp_all

lemma field_defined_truthy: "field ev k \<noteq> JUndefined \<Longrightarrow> truthy ev"
  by (cases ev) (simp_all add: field_def)

lemma field_defined_obj: "field ev k \<noteq> JUndefined \<Longrightarrow> \<exists>fs. ev = JObj fs"
  by (cases ev) (simp_all add: field_def)

lemma isHttpEvent_getProp: "isHttpEvent ev \<Longrightarrow> getProp ev k = Inr (field ev k)"
  by (rule getProp_truthy, rule field_defined_truthy [of ev "''__ow_path''"])
     (auto simp add: isHttpEvent_def isStr_iff)

lemma isHttpEvent_query:
  assumes "isHttpEvent ev"
  shows "asQueryParams (if truthy (field ev ''__ow_query'') then field ev ''__ow_query'' else JObj [])
         = Some (queryParamsOf ev)"
proof (cases "field ev ''__ow_query'' = JUndefined")
  case True
  then show ?thesis by (simp add: queryParamsOf_def)
next
  case False
  with assms obtain q where q: "asQueryParams (field ev ''__ow_query'') = Some q"
    by (auto simp add: isHttpEvent_def)
  then have "truthy (field ev ''__ow_query'')"
    by (cases "field ev ''__ow_query''") simp_all
  with q show ?thesis by (simp add: queryParamsOf_def)
qed

lemma getPathFromEvent_typed:
  assumes "isHttpEvent ev" and "field ev ''__ow_path'' = JStr p"
    and "RegExp_new (''^'' @ getDefaultIfUndefined (optionalStripBasePath options) '''') = Inr re"
  shows "getPathFromEvent options ev =
           Inr (getPathWithQueryStringParams (removeFirstMatch re True p) (queryParamsOf ev))"
  using assms
  by (simp add: getPathFromEvent_def andThen_def isHttpEvent_getProp isHttpEvent_query)

lemma field_JObj: "field (JObj fs) k = (case map_of fs k of None \<Rightarrow> JUndefined | Some v \<Rightarrow> v)"
  by (simp add: field_def)

lemma getProp_JObj_field: "getProp (JObj fs) k = Inr (field (JObj fs) k)"
  by (simp add: field_def)

lemma getRequest_without_body:
  assumes "isHttpEvent ev" and "getPathFromEvent options ev = Inr p"
    and "\<not> truthy (field ev ''__ow_body'')"
  shows "getRequest options ev =
           Inr (ev, \<lparr>req_method = field ev ''__ow_method'', req_headers = field ev ''__ow_headers'',
                     req_body = None,
                     req_remoteAddress = field (field ev ''__ow_headers'') ''x-forwarded-for'',
                     req_path = p\<rparr>)"
proof -
  from assms(1) obtain h where h: "field ev ''__ow_headers'' = JObj h"
    by (auto simp add: isHttpEvent_def isObj_iff)
  have rd: "getProp ev k = Inr (field ev k)" for k
    using assms(1) by (rule isHttpEvent_getProp)
  show ?thesis
    unfolding getRequest_def andThen_def
    by (simp only: rd sum.case assms(2,3) if_False h getProp_JObj_field prod.case)
qed

lemma getRequest_with_body:
  assumes "isHttpEvent ev" and "getPathFromEvent options ev = Inr p"
    and "field ev ''__ow_body'' = JStr s" and "s \<noteq> []"
    and "ev = JObj fs" and "field ev ''__ow_headers'' = JObj h"
    and "buf = fst (getEventBodyAsBuffer s (truthy (field ev ''__ow_isBase64Encoded'')))"
    and "h' = AList.update ''content-length'' (JStr (String_of (length buf))) h"
  shows "getRequest options ev =
           Inr (JObj (AList.update ''__ow_headers'' (JObj h') fs),
                \<lparr>req_method = field ev ''__ow_method'', req_headers = JObj h',
                 req_body = Some buf,
                 req_remoteAddress = field (JObj h') ''x-forwarded-for'',
                 req_path = p\<rparr>)"
proof -
  have rd: "getProp ev k = Inr (field ev k)" for k
    using assms(1) by (rule isHttpEvent_getProp)
  have wr: "inPlace ev k x = JObj (AList.update k x fs)" for k x
    using assms(5) by simp
  have tr: "truthy (JStr s)"
    using assms(4) by simp
  have len: "snd (getEventBodyAsBuffer s b) = length (fst (getEventBodyAsBuffer s b))" for b
    by (simp add: getEventBodyAsBuffer_def Let_def)
  obtain bb cl where g: "getEventBodyAsBuffer s (truthy (field ev ''__ow_isBase64Encoded'')) = (bb, cl)"
    by (cases "getEventBodyAsBuffer s (truthy (field ev ''__ow_isBase64Encoded''))")
  with len [of "truthy (field ev ''__ow_isBase64Encoded'')"] assms(7)
  have bb: "bb = buf" and cl: "cl = length buf" by simp_all
  show ?thesis
    unfolding getRequest_def andThen_def
    by (simp only: rd sum.case assms(2,3,6) tr if_True asString.simps option.case g prod.case
        setProp.simps wr getProp_JObj_field bb cl assms(8) [symmetric])
qed

lemma getProp_Inr_any: "getProp ev k = Inr x \<Longrightarrow> getProp ev k' = Inr (field ev k')"
  by (cases ev) (simp_all add: field_def)

lemma setProp_InrE:
  assumes "setProp v k x = Inr v'"
  obtains fs where "v = JObj fs" and "v' = JObj (AList.update k x fs)"
  using assms by (cases v) auto

lemma field_update_other: "k' \<noteq> k \<Longrightarrow> field (JObj (AList.update k x fs)) k' = field (JObj fs) k'"
  by (simp add: field_JObj update_conv')

lemma field_update_same: "field (JObj (AList.update k x fs)) k = x"
  by (simp add: field_JObj update_conv')

text \<open>
  C1, as stated, fails: \<open>getRequest\<close> on an event with a body writes \<open>content-length\<close>
  into the event's own \<open>__ow_headers\<close>. Before the call \<open>helloEvent\<close> has no such header;
  after it, it has \<open>content-length: "5"\<close>.
\<close>

theorem getRequest_changes_event_counterexample:
  "getRequest None helloEvent =
     Inr (JObj [(''__ow_path'', JStr ''/api/users''), (''__ow_method'', JStr ''post''),
                (''__ow_headers'', JObj [(''accept'', JStr ''*/*''), (''content-length'', JStr ''5'')]),
                (''__ow_body'', JStr ''aGVsbG8=''), (''__ow_isBase64Encoded'', JBool True),
                (''__ow_query'', JObj [(''id'', JStr ''1''), (''tag'', JArr [JStr ''a'', JStr ''b''])])],
          \<lparr>req_method = JStr ''post'',
           req_headers = JObj [(''accept'', JStr ''*/*''), (''content-length'', JStr ''5'')],
           req_body = Some [104, 101, 108, 108, 111],
           req_remoteAddress = JUndefined,
           req_path = ''/api/users?id=1&tag=a&tag=b''\<rparr>)
   \<and> field (field helloEvent ''__ow_headers'') ''content-length'' = JUndefined
   \<and> helloEvent \<noteq>
       JObj [(''__ow_path'', JStr ''/api/users''), (''__ow_method'', JStr ''post''),
             (''__ow_headers'', JObj [(''accept'', JStr ''*/*''), (''content-length'', JStr ''5'')]),
             (''__ow_body'', JStr ''aGVsbG8=''), (''__ow_isBase64Encoded'', JBool True),
             (''__ow_query'', JObj [(''id'', JStr ''1''), (''tag'', JArr [JStr ''a'', JStr ''b''])])]"
  by code_simp

lemma isHttpEvent_body_cases:
  assumes "isHttpEvent ev"
  obtains "\<not> truthy (field ev ''__ow_body'')"
  | s where "field ev ''__ow_body'' = JStr s" and "s \<noteq> []"
proof (cases "truthy (field ev ''__ow_body'')")
  case False
  then show ?thesis by (rule that(1))
next
  case True
  with assms obtain s where "field ev ''__ow_body'' = JStr s"
    by (auto simp add: isHttpEvent_def isStr_iff)
  with True show ?thesis by (auto intro: that(2))
qed

lemma isHttpEvent_shape:
  assumes "isHttpEvent ev"
  obtains fs h where "ev = JObj fs" and "field ev ''__ow_headers'' = JObj h"
proof -
  from assms obtain h where h: "field ev ''__ow_headers'' = JObj h"
    by (auto simp add: isHttpEvent_def isObj_iff)
  then have "field ev ''__ow_headers'' \<noteq> JUndefined" by simp
  then obtain fs where "ev = JObj fs" by (auto dest: field_defined_obj)
  with h show ?thesis by (rule that [rotated])
qed

lemma stripped_empty_iff:
  "(if prefix b p then drop (length b) p else p) = [] \<longleftrightarrow> p = [] \<or> p = b"
  by (auto simp add: prefix_def)

lemma getPathFromEvent_literal:
  assumes "isHttpEvent ev" and "field ev ''__ow_path'' = JStr p"
    and "b = getDefaultIfUndefined (optionalStripBasePath options) ''''"
    and "literalPattern b"
  shows "getPathFromEvent options ev =
           Inr (getPathWithQueryStringParams (if prefix b p then drop (length b) p else p)
                  (queryParamsOf ev))"
proof -
  have "RegExp_new (''^'' @ getDefaultIfUndefined (optionalStripBasePath options) '''')
      = Inr [AssertStart # map Lit b]"
    using RegExp_new_literal [OF assms(4)] by (simp only: assms(3))
  from getPathFromEvent_typed [OF assms(1,2) this] show ?thesis
    by (simp only: removeFirstMatch_literal)
qed

lemma isHttpEvent_canHandle: "isHttpEvent ev \<Longrightarrow> canHandle ev = Inr True"
  by (auto simp add: canHandle_def andThen_def isHttpEvent_getProp isHttpEvent_def isStr_iff isObj_iff
      dest: field_defined_truthy)

text \<open>
  C5, amended: on every well-typed event (which \<open>canHandle\<close> accepts) and every
  configuration whose base path has no special pattern character, \<open>getRequest\<close> returns a
  request with the event's method (a string), a headers map and a path; the path is empty
  exactly when the event has no query parameters and its \<open>__ow_path\<close> is empty or equal
  to the base path.
\<close>

theorem getRequest_on_typed_events:
  assumes "isHttpEvent ev"
    and "literalPattern (getDefaultIfUndefined (optionalStripBasePath options) '''')"
  shows "canHandle ev = Inr True
     \<and> (\<exists>ev' req. getRequest options ev = Inr (ev', req)
           \<and> req_method req = field ev ''__ow_method'' \<and> isStr (req_method req)
           \<and> isObj (req_headers req)
           \<and> (req_path req = [] \<longleftrightarrow>
                 queryParamsOf ev = []
                 \<and> (field ev ''__ow_path'' = JStr ''''
                      \<or> field ev ''__ow_path'' =
                          JStr (getDefaultIfUndefined (optionalStripBasePath options) ''''))))"
proof -
  define b where "b = getDefaultIfUndefined (optionalStripBasePath options) ''''"
  from assms(1) obtain p where p: "field ev ''__ow_path'' = JStr p"
    by (auto simp add: isHttpEvent_def isStr_iff)
  from assms(1) have m: "isStr (field ev ''__ow_method'')"
    by (simp add: isHttpEvent_def)
  define path where
    "path = getPathWithQueryStringParams (if prefix b p then drop (length b) p else p) (queryParamsOf ev)"
  have gp: "getPathFromEvent options ev = Inr path"
    unfolding path_def using assms(1) p b_def assms(2) [folded b_def]
    by (rule getPathFromEvent_literal)
  have e: "path = [] \<longleftrightarrow> queryParamsOf ev = [] \<and> (p = [] \<or> p = b)"
    unfolding path_def by (simp only: getPathWithQueryStringParams_empty stripped_empty_iff) blast
  have "\<exists>ev' req. getRequest options ev = Inr (ev', req)
           \<and> req_method req = field ev ''__ow_method'' \<and> isObj (req_headers req)
           \<and> req_path req = path"
    using assms(1)
  proof (cases rule: isHttpEvent_body_cases)
    case 1
    from assms(1) have "isObj (field ev ''__ow_headers'')" by (simp add: isHttpEvent_def)
    with getRequest_without_body [OF assms(1) gp 1] show ?thesis by simp
  next
    case (2 s)
    from assms(1) obtain fs h where ev: "ev = JObj fs" and h: "field ev ''__ow_headers'' = JObj h"
      by (rule isHttpEvent_shape)
    from getRequest_with_body [OF assms(1) gp 2 ev h refl refl] show ?thesis by simp
  qed
  with m e p show ?thesis
    unfolding b_def [symmetric] by (auto simp add: isHttpEvent_canHandle [OF assms(1)])
qed

theorem getRequest_on_typed_events_witness:
  "isHttpEvent helloEvent
   \<and> literalPattern (getDefaultIfUndefined (optionalStripBasePath (Some \<lparr>stripBasePath = Some ''/api''\<rparr>)) '''')
   \<and> canHandle helloEvent = Inr True
   \<and> (\<exists>ev' req. getRequest (Some \<lparr>stripBasePath = Some ''/api''\<rparr>) helloEvent = Inr (ev', req)
         \<and> req_method req = JStr ''post'' \<and> isObj (req_headers req) \<and> req_path req \<noteq> [])"
proof -
  have t: "isHttpEvent helloEvent"
    and l: "literalPattern (getDefaultIfUndefined (optionalStripBasePath (Some \<lparr>stripBasePath = Some ''/api''\<rparr>)) '''')"
    and m: "field helloEvent ''__ow_method'' = JStr ''post''"
    and q: "queryParamsOf helloEvent \<noteq> []"
    by code_simp+
  from getRequest_on_typed_events [OF t l] m q t l show ?thesis
    by auto
qed

text \<open>
  C5, as stated, fails: \<open>canHandle\<close> accepts an event whose \<open>__ow_path\<close> is \<open>null\<close>, and
  \<open>getRequest\<close> throws a TypeError on it (\<open>null.replace\<close>); it accepts an event whose
  \<open>__ow_path\<close> is the empty string, and \<open>getRequest\<close> returns the empty path for it.
\<close>

theorem getRequest_throws_or_empty_path_counterexample:
  "canHandle nullPathEvent = Inr True
   \<and> getRequest None nullPathEvent = Inl TypeError
   \<and> canHandle emptyPathEvent = Inr True
   \<and> getRequest None emptyPathEvent =
       Inr (emptyPathEvent,
            \<lparr>req_method = JStr ''get'', req_headers = JObj [], req_body = None,
             req_remoteAddress = JUndefined, req_path = ''''\<rparr>)"
  by code_simp

text \<open>
  C6: the base path is spliced into a pattern without escaping. With the base path
  \<open>/x|/api\<close> the path \<open>/other/api/x\<close> loses \<open>/api\<close> in the middle; with the base path
  \<open>/v1.0\<close> the path \<open>/v1x0/users\<close>, of which \<open>/v1.0\<close> is no prefix, loses \<open>/v1x0\<close>.
\<close>

theorem getPathFromEvent_pattern_not_literal:
  "getPathFromEvent (Some \<lparr>stripBasePath = Some ''/x|/api''\<rparr>) otherEvent = Inr ''/other/x''
   \<and> getPathFromEvent (Some \<lparr>stripBasePath = Some ''/v1.0''\<rparr>)
         (JObj [(''__ow_path'', JStr ''/v1x0/users''), (''__ow_method'', JStr ''get''),
                (''__ow_headers'', JObj [])]) = Inr ''/users''"
  by code_simp

text \<open>
  With base paths free of special characters the removal is the anchored one
  (\<open>getPathFromEvent_literal\<close>): \<open>/api\<close> turns \<open>/api/users\<close> into \<open>/users\<close> and leaves
  \<open>/other/api/x\<close> alone, and without a configured base path nothing is removed.
\<close>

lemma getPathFromEvent_examples:
  "getPathFromEvent (Some \<lparr>stripBasePath = Some ''/api''\<rparr>)
      (JObj [(''__ow_path'', JStr ''/api/users''), (''__ow_method'', JStr ''get''),
             (''__ow_headers'', JObj [])]) = Inr ''/users''"
  "getPathFromEvent (Some \<lparr>stripBasePath = Some ''/api''\<rparr>) otherEvent = Inr ''/other/api/x''"
  "getPathFromEvent None otherEvent = Inr ''/other/api/x''"
  "getPathFromEvent (Some \<lparr>stripBasePath = None\<rparr>) otherEvent = Inr ''/other/api/x''"
  by code_simp+

lemma getProp_Inr_field: "getProp v k = Inr x \<Longrightarrow> x = field v k"
  by (simp add: field_def)

lemma asString_SomeE:
  assumes "asString v = Some s"
  shows "v = JStr s"
  using assms by (cases v) simp_all

lemma getRequest_Inr_shape:
  assumes "getRequest options ev = Inr (ev', req)"
  obtains (no_body) p where
      "\<not> truthy (field ev ''__ow_body'')" and "getPathFromEvent options ev = Inr p"
      and "ev' = ev"
      and "req = \<lparr>req_method = field ev ''__ow_method'', req_headers = field ev ''__ow_headers'',
                  req_body = None,
                  req_remoteAddress = field (field ev ''__ow_headers'') ''x-forwarded-for'',
                  req_path = p\<rparr>"
  | (with_body) p s fs h buf h' where
      "field ev ''__ow_body'' = JStr s" and "s \<noteq> []"
      and "getPathFromEvent options ev = Inr p"
      and "ev = JObj fs" and "field ev ''__ow_headers'' = JObj h"
      and "buf = fst (getEventBodyAsBuffer s (truthy (field ev ''__ow_isBase64Encoded'')))"
      and "h' = AList.update ''content-length'' (JStr (String_of (length buf))) h"
      and "ev' = JObj (AList.update ''__ow_headers'' (JObj h') fs)"
      and "req = \<lparr>req_method = field ev ''__ow_method'', req_headers = JObj h',
                  req_body = Some buf,
                  req_remoteAddress = field (JObj h') ''x-forwarded-for'',
                  req_path = p\<rparr>"
proof -
  from assms obtain hdrs where hd: "getProp ev ''__ow_headers'' = Inr hdrs"
    by (auto simp add: getRequest_def andThen_def split: sum.splits)
  then have rd: "getProp ev k = Inr (field ev k)" for k
    by (rule getProp_Inr_any)
  from assms obtain p where p: "getPathFromEvent options ev = Inr p"
    unfolding getRequest_def andThen_def
    by (simp only: rd sum.case) (auto split: sum.splits)
  show ?thesis
  proof (cases "truthy (field ev ''__ow_body'')")
    case False
    with assms obtain ra where
      ra: "getProp (field ev ''__ow_headers'') ''x-forwarded-for'' = Inr ra"
      and res: "(ev', req) = (ev, \<lparr>req_method = field ev ''__ow_method'',
                  req_headers = field ev ''__ow_headers'', req_body = None,
                  req_remoteAddress = ra, req_path = p\<rparr>)"
      unfolding getRequest_def andThen_def
      by (simp only: rd p sum.case if_False prod.case split: sum.splits) auto
    from ra have "ra = field (field ev ''__ow_headers'') ''x-forwarded-for''"
      by (rule getProp_Inr_field)
    with res False p show ?thesis by (auto intro: no_body)
  next
    case True
    have len: "getEventBodyAsBuffer s b = (fst (getEventBodyAsBuffer s b), length (fst (getEventBodyAsBuffer s b)))" for s b
      by (simp add: getEventBodyAsBuffer_def Let_def)
    from True assms obtain s where s: "asString (field ev ''__ow_body'') = Some s"
      unfolding getRequest_def andThen_def
      by (simp only: rd p sum.case if_True) (auto split: option.splits)
    then have b: "field ev ''__ow_body'' = JStr s" by (rule asString_SomeE)
    with True have ne: "s \<noteq> []" by simp
    define buf where "buf = fst (getEventBodyAsBuffer s (truthy (field ev ''__ow_isBase64Encoded'')))"
    have g: "getEventBodyAsBuffer s (truthy (field ev ''__ow_isBase64Encoded'')) = (buf, length buf)"
      unfolding buf_def by (rule len)
    from True assms obtain hdrs' where
      s1: "setProp (field ev ''__ow_headers'') ''content-length'' (JStr (String_of (length buf))) = Inr hdrs'"
      unfolding getRequest_def andThen_def
      by (simp only: rd p sum.case if_True s option.case g prod.case) (auto split: sum.splits)
    from s1 obtain h where h: "field ev ''__ow_headers'' = JObj h"
      and hd': "hdrs' = JObj (AList.update ''content-length'' (JStr (String_of (length buf))) h)"
      by (rule setProp_InrE)
    from h have "field ev ''__ow_headers'' \<noteq> JUndefined" by simp
    then obtain fs where fs: "ev = JObj fs"
      by (auto dest: field_defined_obj)
    define h' where "h' = AList.update ''content-length'' (JStr (String_of (length buf))) h"
    from assms True have res: "(ev', req) =
        (JObj (AList.update ''__ow_headers'' (JObj h') fs),
         \<lparr>req_method = field ev ''__ow_method'', req_headers = JObj h',
          req_body = Some buf,
          req_remoteAddress = field (JObj h') ''x-forwarded-for'', req_path = p\<rparr>)"
      unfolding getRequest_def andThen_def
      by (simp only: rd p sum.case if_True s option.case g prod.case s1 hd' h'_def [symmetric]
          getProp_JObj_field) (simp add: fs)
    with b ne p fs h buf_def h'_def show ?thesis by (auto intro: with_body)
  qed
qed




text \<open>
  C1, amended: whenever \<open>getRequest\<close> returns, an event without a body (absent or empty)
  is unchanged; on an event with a body, the \<open>content-length\<close> entry of the event's own
  \<open>__ow_headers\<close> now holds the decoded byte length; in both cases the headers of the
  request are the event's \<open>__ow_headers\<close> as they are after the call, every field other
  than \<open>__ow_headers\<close> and every header other than \<open>content-length\<close> is as before.
\<close>

theorem getRequest_frame:
  assumes "getRequest options ev = Inr (ev', req)"
  shows "(\<not> truthy (field ev ''__ow_body'') \<longrightarrow> ev' = ev)
       \<and> (truthy (field ev ''__ow_body'') \<longrightarrow>
            (\<exists>s. field ev ''__ow_body'' = JStr s
               \<and> field (field ev' ''__ow_headers'') ''content-length'' =
                   JStr (String_of (snd (getEventBodyAsBuffer s
                                           (truthy (field ev ''__ow_isBase64Encoded'')))))))
       \<and> req_headers req = field ev' ''__ow_headers''
       \<and> (k \<noteq> ''__ow_headers'' \<longrightarrow> field ev' k = field ev k)
       \<and> (n \<noteq> ''content-length'' \<longrightarrow>
            field (field ev' ''__ow_headers'') n = field (field ev ''__ow_headers'') n)"
  using assms
proof (cases rule: getRequest_Inr_shape)
  case (no_body p)
  then show ?thesis by simp
next
  case (with_body p s fs h buf h')
  have sn: "snd (getEventBodyAsBuffer s b) = length (fst (getEventBodyAsBuffer s b))" for b
    by (simp add: getEventBodyAsBuffer_def Let_def)
  have hd: "field ev' ''__ow_headers'' = JObj h'"
    unfolding with_body(8) by (rule field_update_same)
  have cl: "field (JObj h') ''content-length'' =
      JStr (String_of (snd (getEventBodyAsBuffer s (truthy (field ev ''__ow_isBase64Encoded'')))))"
    unfolding with_body(7) with_body(6) sn by (rule field_update_same)
  have other: "k \<noteq> ''__ow_headers'' \<Longrightarrow> field ev' k = field ev k"
    unfolding with_body(8) with_body(4) by (rule field_update_other)
  have others: "n \<noteq> ''content-length'' \<Longrightarrow> field (JObj h') n = field (JObj h) n"
    unfolding with_body(7) by (rule field_update_other)
  from with_body(1,2) have t: "truthy (field ev ''__ow_body'')" by simp
  from t with_body(1) hd cl other others with_body(5) with_body(9) show ?thesis
    by simp
qed

theorem getRequest_frame_witness:
  "getRequest None otherEvent =
     Inr (otherEvent,
          \<lparr>req_method = JStr ''get'', req_headers = JObj [], req_body = None,
           req_remoteAddress = JUndefined, req_path = ''/other/api/x''\<rparr>)
   \<and> (\<exists>ev' req. getRequest None helloEvent = Inr (ev', req)
          \<and> field (field ev' ''__ow_headers'') ''content-length'' = JStr ''5''
          \<and> req_headers req = field ev' ''__ow_headers''
          \<and> field ev' ''__ow_body'' = JStr ''aGVsbG8=''
          \<and> field (field ev' ''__ow_headers'') ''accept'' = JStr ''*/*'')"
proof -
  have a: "getRequest None otherEvent =
     Inr (otherEvent,
          \<lparr>req_method = JStr ''get'', req_headers = JObj [], req_body = None,
           req_remoteAddress = JUndefined, req_path = ''/other/api/x''\<rparr>)"
    by code_simp
  have nb: "\<not> truthy (field otherEvent ''__ow_body'')"
    by code_simp
  have "getRequest None helloEvent \<noteq> Inl TypeError" "getRequest None helloEvent \<noteq> Inl OutsideModel"
    by code_simp+
  then obtain ev' req where b: "getRequest None helloEvent = Inr (ev', req)"
    by (cases "getRequest None helloEvent") (auto intro: js_error.exhaust)
  have f0: "truthy (field helloEvent ''__ow_body'')"
    and f1: "field helloEvent ''__ow_body'' = JStr ''aGVsbG8=''"
    and f2: "field (field helloEvent ''__ow_headers'') ''accept'' = JStr ''*/*''"
    and f3: "String_of (snd (getEventBodyAsBuffer ''aGVsbG8=''
                               (truthy (field helloEvent ''__ow_isBase64Encoded'')))) = ''5''"
    by code_simp+
  from getRequest_frame [OF b, of "''__ow_body''" "''accept''"] f0 f1 f2 f3
  have "field (field ev' ''__ow_headers'') ''content-length'' = JStr ''5''
          \<and> req_headers req = field ev' ''__ow_headers''
          \<and> field ev' ''__ow_body'' = JStr ''aGVsbG8=''
          \<and> field (field ev' ''__ow_headers'') ''accept'' = JStr ''*/*''"
    by auto
  with b getRequest_frame [OF a, of "''__ow_path''" "''accept''"] nb a
  show ?thesis by blast
qed




end
